theory Spec2Isabelle
  imports Main "HOL-Library.Multiset"
begin

section \<open>Text primitives of the event pipeline\<close>

text \<open>
  Response text is a list of characters. A \<open>char\<close> is one code point below 256; the
  device protocol is plain ASCII. The functions below are the Python string
  operations that \<open>generate_access_report\<close> and \<open>load_and_filter_cards\<close> call.
\<close>

definition is_space :: "char \<Rightarrow> bool" where
  \<comment> \<open>the characters \<open>str.strip()\<close> removes and the pattern \<open>\\s\<close> matches\<close>
  "is_space c \<longleftrightarrow> c \<in> set [CHR 0x09, CHR 0x0A, CHR 0x0B, CHR 0x0C, CHR 0x0D,
     CHR 0x1C, CHR 0x1D, CHR 0x1E, CHR 0x1F, CHR 0x20, CHR 0x85, CHR 0xA0]"

definition is_digit :: "char \<Rightarrow> bool" where
  \<comment> \<open>the pattern \<open>\\d\<close>\<close>
  "is_digit c \<longleftrightarrow> c \<in> set ''0123456789''"

definition strip :: "string \<Rightarrow> string" where
  \<comment> \<open>\<open>str.strip()\<close>: white space removed at both ends\<close>
  "strip s = rev (dropWhile is_space (rev (dropWhile is_space s)))"

fun split :: "char \<Rightarrow> string \<Rightarrow> string list" where
  \<comment> \<open>\<open>str.split(sep)\<close> with a one-character separator: the empty string gives one empty field\<close>
  "split sep [] = [[]]"
| "split sep (c # cs) =
     (if c = sep then [] # split sep cs
      else (case split sep cs of [] \<Rightarrow> [[c]] | f # fs \<Rightarrow> (c # f) # fs))"

fun starts_with :: "string \<Rightarrow> string \<Rightarrow> bool" where
  "starts_with [] s = True"
| "starts_with (p # ps) [] = False"
| "starts_with (p # ps) (c # cs) = (p = c \<and> starts_with ps cs)"

fun str_contains :: "string \<Rightarrow> string \<Rightarrow> bool" where
  \<comment> \<open>\<open>Series.str.contains(pat)\<close> for a pattern without metacharacters: \<open>pat\<close> occurs in \<open>s\<close>,
      case-sensitively\<close>
  "str_contains pat [] = starts_with pat []"
| "str_contains pat (c # cs) = (starts_with pat (c # cs) \<or> str_contains pat cs)"

definition str_extract :: "string \<Rightarrow> string option" where
  \<comment> \<open>\<open>Series.str.extract(r"(\\d+)")\<close>: the first run of digits, or a missing value\<close>
  "str_extract s =
     (case dropWhile (\<lambda>c. \<not> is_digit c) s of
        [] \<Rightarrow> None
      | c # cs \<Rightarrow> Some (takeWhile is_digit (c # cs)))"

definition digit_val :: "char \<Rightarrow> nat" where
  "digit_val c = of_char c - 48"

definition to_numeric :: "string \<Rightarrow> int" where
  \<comment> \<open>\<open>pd.to_numeric\<close> on a run of digits: its decimal value (leading zeros do not count).
      Values are taken in the range of a 64-bit integer column.\<close>
  "to_numeric ds = int (foldl (\<lambda>a c. 10 * a + digit_val c) 0 ds)"

section \<open>Calendar dates and the strict datetime format\<close>

type_synonym date = "nat \<times> nat \<times> nat"  \<comment> \<open>year, month, day\<close>

definition is_leap :: "nat \<Rightarrow> bool" where
  "is_leap y \<longleftrightarrow> y mod 4 = 0 \<and> (y mod 100 \<noteq> 0 \<or> y mod 400 = 0)"

definition days_in_month :: "nat \<Rightarrow> nat \<Rightarrow> nat" where
  "days_in_month y m =
     (if m = 2 then (if is_leap y then 29 else 28)
      else if m \<in> {4, 6, 9, 11} then 30 else 31)"

definition num :: "string \<Rightarrow> nat" where
  "num ds = foldl (\<lambda>a c. 10 * a + digit_val c) 0 ds"

definition field_ok :: "nat \<Rightarrow> nat \<Rightarrow> string \<Rightarrow> bool" where
  \<comment> \<open>a directive of one or two digits: one digit from \<open>lo\<close> up, or two digits with a
      value in \<open>lo..hi\<close>\<close>
  "field_ok lo hi s \<longleftrightarrow>
     list_all is_digit s \<and>
     (length s = 1 \<and> lo \<le> num s \<or> length s = 2 \<and> lo \<le> num s \<and> num s \<le> hi)"

definition day_ok :: "string \<Rightarrow> bool" where
  \<comment> \<open>\<open>%d\<close>: \<open>3[0-1]|[1-2]\\d|0[1-9]|[1-9]| [1-9]\<close>\<close>
  "day_ok s \<longleftrightarrow> field_ok 1 31 s \<or> (length s = 2 \<and> hd s = CHR '' '' \<and> field_ok 1 9 (tl s))"

definition month_ok :: "string \<Rightarrow> bool" where
  \<comment> \<open>\<open>%m\<close>: \<open>1[0-2]|0[1-9]|[1-9]\<close>\<close>
  "month_ok s \<longleftrightarrow> field_ok 1 12 s"

definition year_ok :: "string \<Rightarrow> bool" where
  \<comment> \<open>\<open>%y\<close>: \<open>\\d\\d\<close>\<close>
  "year_ok s \<longleftrightarrow> length s = 2 \<and> list_all is_digit s"

definition century :: "nat \<Rightarrow> nat" where
  \<comment> \<open>two-digit years: 69..99 are 1969..1999, 00..68 are 2000..2068\<close>
  "century yy = (if yy \<le> 68 then 2000 + yy else 1900 + yy)"

definition nat_strings :: "string list" where
  \<comment> \<open>the spellings pandas reads as a missing timestamp\<close>
  "nat_strings = [''NaT'', ''nat'', ''NAT'', ''nan'', ''NaN'', ''NAN'']"

datatype error = AttributeError | RequestException | ValueError | OSError | FileNotFoundError

definition next_day :: "date \<Rightarrow> date" where
  "next_day dt =
     (case dt of (y, m, d) \<Rightarrow>
        if d < days_in_month y m then (y, m, d + 1)
        else if m < 12 then (y, m + 1, 1) else (y + 1, 1, 1))"

definition strptime :: "string \<Rightarrow> error + date" where
  \<comment> \<open>the format \<open>%d/%m/%y %H:%M:%S\<close>, matched against the whole field: day, month and
      two-digit year between slashes, white space, then hour, minute and second between
      colons; the day has to exist in its month. The pattern of \<open>%S\<close> is
      \<open>6[0-1]|[0-5]\\d|\\d\<close>, and the seconds are added to the timestamp as they are: a
      clock of 23:59:60 or 23:59:61 is a time on the next day.\<close>
  "strptime s =
     (case split CHR ''/'' s of
        [d, m, rest] \<Rightarrow>
          (let y = take 2 rest; ws = takeWhile is_space (drop 2 rest);
               clock = dropWhile is_space (drop 2 rest)
           in case split CHR '':'' clock of
                [H, M, S] \<Rightarrow>
                  if day_ok d \<and> month_ok m \<and> year_ok y \<and> ws \<noteq> [] \<and>
                     field_ok 0 23 H \<and> field_ok 0 59 M \<and> field_ok 0 61 S \<and>
                     num (dropWhile is_space d) \<le> days_in_month (century (num y)) (num m)
                  then (let day = (century (num y), num m, num (dropWhile is_space d))
                        in Inr (if num H = 23 \<and> num M = 59 \<and> 60 \<le> num S then next_day day else day))
                  else Inl ValueError
              | _ \<Rightarrow> Inl ValueError)
      | _ \<Rightarrow> Inl ValueError)"

definition to_datetime_date :: "string \<Rightarrow> error + date option" where
  \<comment> \<open>one cell of \<open>pd.to_datetime(col, format="%d/%m/%y %H:%M:%S")\<close> followed by \<open>.dt.date\<close>:
      a missing-value spelling becomes the missing date \<open>None\<close> without an error, and so
      does an empty cell (pandas 2.0 and later); any other cell has to match the format,
      else \<open>ValueError\<close>\<close>
  "to_datetime_date s =
     (if s = [] \<or> s \<in> set nat_strings then Inr None
      else (case strptime s of Inl e \<Rightarrow> Inl e | Inr d \<Rightarrow> Inr (Some d)))"

section \<open>The roster and its two views\<close>

datatype cell = CBool bool | CStr string | CNaN
  \<comment> \<open>a cell of the \<open>Active\<close> column as the spreadsheet reader delivers it\<close>

record card =
  card_rfid :: "int option"     \<comment> \<open>\<open>Card RFID\<close>; \<open>None\<close> is a missing cell\<close>
  rfid_float :: bool             \<comment> \<open>whether the value of \<open>row["Card RFID"]\<close> is a float: the column of a
                                     roster with a blank \<open>Card RFID\<close> cell is a float64 column, in all
                                     its rows; without a blank cell it is an integer column\<close>
  card_number :: string          \<comment> \<open>\<open>Card Number\<close>\<close>
  username :: "string option"   \<comment> \<open>\<open>Username\<close>; \<open>None\<close> is a missing cell\<close>
  active :: cell                 \<comment> \<open>\<open>Active\<close>\<close>
  expiration :: "int option"    \<comment> \<open>\<open>Expiration date\<close> after \<open>pd.to_datetime(..., errors="coerce")\<close>:
                                     the ordinal of its day, \<open>None\<close> where the cell does not convert\<close>

definition astype_str :: "cell \<Rightarrow> string" where
  \<comment> \<open>\<open>astype(str)\<close> on one cell\<close>
  "astype_str c = (case c of CBool True \<Rightarrow> ''True'' | CBool False \<Rightarrow> ''False''
                   | CStr s \<Rightarrow> s | CNaN \<Rightarrow> ''nan'')"

definition lower_char :: "char \<Rightarrow> char" where
  "lower_char c =
     (let n = (of_char c :: nat)
      in if 65 \<le> n \<and> n \<le> 90 \<or> 192 \<le> n \<and> n \<le> 222 \<and> n \<noteq> 215 then char_of (n + 32) else c)"

definition lower :: "string \<Rightarrow> string" where
  \<comment> \<open>\<open>str.lower()\<close>\<close>
  "lower s = map lower_char s"

definition is_active :: "int \<Rightarrow> card \<Rightarrow> bool" where
  \<comment> \<open>the row mask of \<open>load_and_filter_cards\<close>; a missing date compares false\<close>
  "is_active today c \<longleftrightarrow>
     lower (astype_str (active c)) = ''true''
     \<and> card_rfid c \<noteq> None
     \<and> (case expiration c of None \<Rightarrow> False | Some d \<Rightarrow> today \<le> d)"

definition load_and_filter_cards ::
  "(string \<Rightarrow> error + card list) \<Rightarrow> int \<Rightarrow> string \<Rightarrow> error + (card list \<times> card list)" where
  \<comment> \<open>\<open>read_excel\<close> is the spreadsheet reader, \<open>today\<close> the ordinal of the current day. An error
      of the reader is logged and raised again. The \<open>Active\<close> column of the loaded table is
      replaced by its text form; the table is returned with the copy of its active rows.\<close>
  "load_and_filter_cards read_excel today file_path =
     (case read_excel file_path of
        Inl e \<Rightarrow> Inl e
      | Inr loaded \<Rightarrow>
          (let df = map (\<lambda>c. c\<lparr>active := CStr (astype_str (active c))\<rparr>) loaded;
               active_cards_df = filter (is_active today) df
           in Inr (df, active_cards_df)))"

section \<open>The device and the file system\<close>

type_synonym request = "string \<times> string option"  \<comment> \<open>endpoint and the \<open>req\<close> parameter\<close>

datatype content = Backup string | Report "(int \<times> nat \<times> card option) list"

record world =
  issued :: "request list"               \<comment> \<open>every GET attempted so far, oldest first\<close>
  files :: "(string \<times> content) list"   \<comment> \<open>every file written so far, oldest first\<close>

record env =
  ping_reply :: bool                                          \<comment> \<open>whether the echo probe got an answer\<close>
  read_excel :: "string \<Rightarrow> error + card list"
  device :: "request list \<Rightarrow> request \<Rightarrow> error + string"  \<comment> \<open>the answer to a request after the
                                                                 requests before it: an error or the body text\<close>
  today :: int
  now :: string                                               \<comment> \<open>\<open>datetime.now()\<close> as \<open>%Y%m%d_%H%M%S\<close>\<close>
  writable :: "string \<Rightarrow> bool"                           \<comment> \<open>whether a path can be created or written\<close>
  backup_dir :: string                                        \<comment> \<open>\<open>BACKUP_DIR\<close> of the configuration\<close>
  report_dir :: string                                        \<comment> \<open>\<open>REPORT_DIR\<close> of the configuration\<close>

definition make_request :: "env \<Rightarrow> world \<Rightarrow> string \<Rightarrow> string option \<Rightarrow> (error + string) \<times> world" where
  \<comment> \<open>\<open>_make_request\<close>: one GET; a failure is logged and raised again\<close>
  "make_request e w endpoint params =
     (device e (issued w) (endpoint, params), w\<lparr>issued := issued w @ [(endpoint, params)]\<rparr>)"

definition check_ping :: "env \<Rightarrow> bool" where
  "check_ping e = ping_reply e"

definition path_join :: "string \<Rightarrow> string \<Rightarrow> string" where
  \<comment> \<open>\<open>os.path.join\<close> with a relative second part\<close>
  "path_join a b = (if a = [] \<or> last a = CHR ''/'' then a @ b else a @ ''/'' @ b)"

definition write_file :: "env \<Rightarrow> world \<Rightarrow> string \<Rightarrow> content \<Rightarrow> (error + unit) \<times> world" where
  "write_file e w path c =
     (if writable e path then (Inr (), w\<lparr>files := files w @ [(path, c)]\<rparr>) else (Inl OSError, w))"

definition download_backup :: "env \<Rightarrow> world \<Rightarrow> string \<Rightarrow> (error + string) \<times> world" where
  "download_backup e w folder_path =
     (case make_request e w ''/cgi/card_get_list'' None of
        (Inl err, w1) \<Rightarrow> (Inl err, w1)
      | (Inr body, w1) \<Rightarrow>
          if \<not> writable e folder_path then (Inl OSError, w1)
          else (let file_path = path_join folder_path (''turnstile_backup_'' @ now e @ ''.bin'')
                in case write_file e w1 file_path (Backup body) of
                     (Inl err, w2) \<Rightarrow> (Inl err, w2)
                   | (Inr u, w2) \<Rightarrow> (Inr file_path, w2)))"

definition clear_all_cards :: "env \<Rightarrow> world \<Rightarrow> (error + unit) \<times> world" where
  \<comment> \<open>\<open>manager.clear_all_cards()\<close> as \<open>main\<close> calls it: class \<open>TurnstileManager\<close> defines
      \<open>_make_request\<close>, \<open>check_ping\<close>, \<open>download_backup\<close>, \<open>update_turnstile_cards\<close> and
      \<open>generate_access_report\<close> and no other method, so looking the attribute up raises
      before any request is made\<close>
  "clear_all_cards e w = (Inl AttributeError, w)"

section \<open>Provisioning\<close>

function str_nat :: "nat \<Rightarrow> string" where
  "str_nat n = (if n < 10 then [char_of (48 + n)] else str_nat (n div 10) @ [char_of (48 + n mod 10)])"
  by pat_completeness auto
termination
  by (relation "measure (\<lambda>n. n)") auto

definition str_int :: "int \<Rightarrow> string" where
  \<comment> \<open>how an f-string renders an integer\<close>
  "str_int i = (if i < 0 then CHR ''-'' # str_nat (nat (- i)) else str_nat (nat i))"

definition format_rfid :: "card \<Rightarrow> string" where
  \<comment> \<open>how the f-string renders \<open>row["Card RFID"]\<close>: an integer as its digits, a float with
      an integral value as the digits followed by \<open>.0\<close> (below \<open>10^16\<close>, which covers what a
      spreadsheet cell holds), a missing value as \<open>nan\<close>\<close>
  "format_rfid row =
     (case card_rfid row of
        None \<Rightarrow> ''nan''
      | Some r \<Rightarrow> if rfid_float row then str_int r @ ''.0'' else str_int r)"

definition card_edit :: "card \<Rightarrow> request" where
  \<comment> \<open>the request of one loop iteration: \<open>params = {"req": f"1+1+{rfid}"}\<close>\<close>
  "card_edit row = (''/cgi/card_edit'', Some (''1+1+'' @ format_rfid row))"

fun update_turnstile_cards :: "env \<Rightarrow> world \<Rightarrow> card list \<Rightarrow> (error + unit) \<times> world" where
  "update_turnstile_cards e w [] = (Inr (), w)"
| "update_turnstile_cards e w (row # rows) =
     (case make_request e w (fst (card_edit row)) (snd (card_edit row)) of
        (Inl err, w1) \<Rightarrow> (Inl err, w1)
      | (Inr response, w1) \<Rightarrow> update_turnstile_cards e w1 rows)"

section \<open>The access report\<close>

definition tokenize :: "string \<Rightarrow> string list list" where
  \<comment> \<open>\<open>rows = raw_data.strip().split("\\n")\<close> and the list \<open>data\<close> of the rows with four fields\<close>
  "tokenize raw_data =
     filter (\<lambda>fields. length fields = 4) (map (split CHR 0x09) (split CHR 0x0A (strip raw_data)))"

definition classify :: "string list list \<Rightarrow> (string \<times> int) list" where
  \<comment> \<open>from the frame of four columns to the rows \<open>(datetime, Card RFID)\<close> with a numeric rfid:
      rows marked as not registered go, rows without \<open>by card\<close> go, the first run of digits
      is extracted, rows without one go\<close>
  "classify data =
     (let df = map (\<lambda>fields. (fields ! 2, fields ! 3)) data;
          df = filter (\<lambda>(dt, descr). \<not> str_contains ''Card is not registered'' descr) df;
          df = filter (\<lambda>(dt, descr). str_contains ''by card'' descr) df
      in List.map_filter (\<lambda>(dt, descr). map_option (\<lambda>ds. (dt, to_numeric ds)) (str_extract descr)) df)"

fun normalize :: "(string \<times> int) list \<Rightarrow> error + (int \<times> date option) list" where
  \<comment> \<open>the \<open>datetime\<close> column converted as a whole, then replaced by the column \<open>Date\<close>: one cell
      that does not convert raises for the whole column\<close>
  "normalize [] = Inr []"
| "normalize ((dt, rfid) # rows) =
     (case to_datetime_date dt of
        Inl err \<Rightarrow> Inl err
      | Inr d \<Rightarrow> (case normalize rows of Inl err \<Rightarrow> Inl err | Inr evs \<Rightarrow> Inr ((rfid, d) # evs)))"

fun drop_dups :: "'a list \<Rightarrow> 'a list \<Rightarrow> 'a list" where
  "drop_dups seen [] = []"
| "drop_dups seen (x # xs) = (if x \<in> set seen then drop_dups seen xs else x # drop_dups (x # seen) xs)"

definition drop_duplicates :: "'a list \<Rightarrow> 'a list" where
  \<comment> \<open>\<open>DataFrame.drop_duplicates()\<close>: the first of equal rows stays\<close>
  "drop_duplicates xs = drop_dups [] xs"

definition merge_left :: "(int \<times> 'a) list \<Rightarrow> card list \<Rightarrow> (int \<times> 'a \<times> card option) list" where
  \<comment> \<open>\<open>df.merge(cards_df, on="Card RFID", how="left")\<close>: the rows of the left frame in their
      order, each once per roster row with its rfid (in roster order), or once with missing
      roster columns when there is none\<close>
  "merge_left df cards_df =
     concat (map (\<lambda>(rfid, x).
       (case filter (\<lambda>c. card_rfid c = Some rfid) cards_df of
          [] \<Rightarrow> [(rfid, x, None)]
        | ms \<Rightarrow> map (\<lambda>c. (rfid, x, Some c)) ms)) df)"

definition has_username :: "int \<times> 'a \<times> card option \<Rightarrow> bool" where
  "has_username row = (case snd (snd row) of None \<Rightarrow> False | Some c \<Rightarrow> username c \<noteq> None)"

definition dates_of :: "int \<Rightarrow> (int \<times> date option \<times> 'b) list \<Rightarrow> date list" where
  \<comment> \<open>the dates that are not missing in the rows of one rfid\<close>
  "dates_of rfid df = List.map_filter (\<lambda>(r, d, c). if r = rfid then d else None) df"

definition nunique :: "(int \<times> date option \<times> 'b) list \<Rightarrow> (int \<times> nat) list" where
  \<comment> \<open>\<open>df.groupby("Card RFID")["Date"].nunique().reset_index()\<close>: one row per rfid, in
      ascending order of rfid, with the number of its distinct dates\<close>
  "nunique df = map (\<lambda>rfid. (rfid, length (remdups (dates_of rfid df)))) (sort (remdups (map fst df)))"

definition sort_values :: "(int \<times> nat \<times> 'c) list \<Rightarrow> (int \<times> nat \<times> 'c) list" where
  \<comment> \<open>\<open>sort_values(by="UniqueEntryDays", ascending=False)\<close>: pandas reverses the rows, sorts
      them in ascending order and reverses the result; the ascending sort is taken to leave
      equal keys in place\<close>
  "sort_values df = rev (sort_key (\<lambda>row. fst (snd row)) (rev df))"

definition report_rows :: "(int \<times> date option) list \<Rightarrow> card list \<Rightarrow> (int \<times> nat \<times> card option) list" where
  \<comment> \<open>from the events \<open>(Card RFID, Date)\<close> to \<open>df_result\<close>\<close>
  "report_rows events cards_df =
     (let df = drop_duplicates events;
          df = filter has_username (merge_left df cards_df);
          df_count = nunique df;
          df_result = merge_left df_count cards_df
      in sort_values df_result)"

definition event_get :: "int \<Rightarrow> request" where
  "event_get records_to_fetch =
     (''/cgi/event_get'', Some (''-1,0,-'' @ str_int records_to_fetch @ '',0,0,1,1,0,23,59,31,12,99,1,/en''))"

definition generate_access_report ::
  "env \<Rightarrow> world \<Rightarrow> int \<Rightarrow> card list \<Rightarrow> string \<Rightarrow> (error + string option) \<times> world" where
  \<comment> \<open>the value is what the Python function returns: \<open>None\<close> is Python's \<open>None\<close>. Neither
      exit of the function returns anything else.\<close>
  "generate_access_report e w records_to_fetch cards_df output_dir =
     (case make_request e w (fst (event_get records_to_fetch)) (snd (event_get records_to_fetch)) of
        (Inl err, w1) \<Rightarrow> (Inl err, w1)
      | (Inr raw_data, w1) \<Rightarrow>
          (let data = tokenize raw_data
           in if data = [] then (Inr None, w1)
              else (case normalize (classify data) of
                      Inl err \<Rightarrow> (Inl err, w1)
                    | Inr events \<Rightarrow>
                        (let df_result = report_rows events cards_df
                         in if \<not> writable e output_dir then (Inl OSError, w1)
                            else (let output_path = path_join output_dir (''access_report_'' @ now e @ ''.xlsx'')
                                  in case write_file e w1 output_path (Report df_result) of
                                       (Inl err, w2) \<Rightarrow> (Inl err, w2)
                                     | (Inr u, w2) \<Rightarrow> (Inr None, w2))))))"

section \<open>The run\<close>

record args =
  roster_file :: string    \<comment> \<open>\<open>--file\<close>\<close>
  records_to_fetch :: int
  skip_update :: bool
  skip_report :: bool
  skip_clear_all_cards :: bool

datatype exit = Completed | SysExit nat

definition update_phase :: "env \<Rightarrow> args \<Rightarrow> world \<Rightarrow> card list \<Rightarrow> (error + unit) \<times> world" where
  \<comment> \<open>the block under \<open>if not args.skip_update\<close>\<close>
  "update_phase e a w active_cards_df =
     (case download_backup e w (backup_dir e) of
        (Inl err, w1) \<Rightarrow> (Inl err, w1)
      | (Inr p, w1) \<Rightarrow>
          (case (if skip_clear_all_cards a then (Inr (), w1) else clear_all_cards e w1) of
             (Inl err, w2) \<Rightarrow> (Inl err, w2)
           | (Inr u, w2) \<Rightarrow> update_turnstile_cards e w2 active_cards_df))"

definition main :: "env \<Rightarrow> args \<Rightarrow> world \<Rightarrow> exit \<times> world" where
  \<comment> \<open>every exception inside the \<open>try\<close> ends the process with status 1\<close>
  "main e a w =
     (if \<not> check_ping e then (SysExit 1, w)
      else (case load_and_filter_cards (read_excel e) (today e) (roster_file a) of
              Inl err \<Rightarrow> (SysExit 1, w)
            | Inr (full_cards_df, active_cards_df) \<Rightarrow>
                (case (if \<not> skip_update a then update_phase e a w active_cards_df else (Inr (), w)) of
                   (Inl err, w1) \<Rightarrow> (SysExit 1, w1)
                 | (Inr u, w1) \<Rightarrow>
                     if \<not> skip_report a
                     then (case generate_access_report e w1 (records_to_fetch a) full_cards_df (report_dir e) of
                             (Inl err, w2) \<Rightarrow> (SysExit 1, w2)
                           | (Inr r, w2) \<Rightarrow> (Completed, w2))
                     else (Completed, w1))))"

section \<open>Concrete inputs\<close>




definition card_boundary :: card where
  "card_boundary = \<lparr>card_rfid = Some 1, rfid_float = True, card_number = ''A1'', username = Some ''ann'',
                      active = CBool True, expiration = Some 50\<rparr>"

definition card_expired :: card where
  "card_expired = \<lparr>card_rfid = Some 2, rfid_float = True, card_number = ''A2'', username = Some ''ben'',
                     active = CBool True, expiration = Some 49\<rparr>"

definition roster4 :: "card list" where
  "roster4 = [card_boundary, card_expired,
     \<lparr>card_rfid = Some 3, rfid_float = True, card_number = ''A3'', username = Some ''cy'', active = CBool False, expiration = Some 60\<rparr>,
     \<lparr>card_rfid = None, rfid_float = True, card_number = ''A4'', username = Some ''di'', active = CStr ''TRUE'', expiration = Some 60\<rparr>]"

definition card123 :: card where
  "card123 = \<lparr>card_rfid = Some 123, rfid_float = False, card_number = ''B7'', username = Some ''zoe'',
                 active = CStr ''True'', expiration = Some 60\<rparr>"

definition events5 :: "(int \<times> date option) list" where
  "events5 = [(123, Some (2024, 2, 1)), (123, Some (2024, 2, 2)), (123, Some (2024, 2, 1)),
              (123, Some (2024, 2, 3)), (123, Some (2024, 2, 3))]"

definition card5 :: card where
  "card5 = \<lparr>card_rfid = Some 5, rfid_float = False, card_number = ''N5'', username = Some ''eve'',
               active = CStr ''True'', expiration = Some 60\<rparr>"

definition card3 :: card where
  "card3 = \<lparr>card_rfid = Some 3, rfid_float = False, card_number = ''N3'', username = Some ''bob'',
               active = CStr ''True'', expiration = Some 60\<rparr>"

definition tab :: string where
  "tab = [CHR 0x09]"

definition newline :: string where
  "newline = [CHR 0x0A]"

definition env_of :: "string \<Rightarrow> card list \<Rightarrow> env" where
  "env_of raw roster = \<lparr>ping_reply = True, read_excel = (\<lambda>p. Inr roster),
     device = (\<lambda>hist req. Inr raw), today = 50, now = ''20240201_100000'',
     writable = (\<lambda>p. True), backup_dir = ''backups/'', report_dir = ''reports/''\<rparr>"

definition raw_two_cards :: string where
  "raw_two_cards = ''1'' @ tab @ ''h1'' @ tab @ ''01/02/24 10:00:00'' @ tab @ ''Entered by card 5'' @ newline
                 @ ''2'' @ tab @ ''h2'' @ tab @ ''01/02/24 10:05:00'' @ tab @ ''Entered by card 3''"

definition raw_noise :: string where
  "raw_noise = ''bad'' @ tab @ ''line'' @ newline @ ''OK''"

definition raw_spec_lines :: string where
  "raw_spec_lines = ''1'' @ tab @ ''h1'' @ tab @ ''01/02/24 10:00:00'' @ tab @ ''Entered by card 00123''
                  @ newline @ ''bad'' @ tab @ ''line''"

definition raw_all_dropped :: string where
  "raw_all_dropped = ''1'' @ tab @ ''h1'' @ tab @ ''garbled'' @ tab @ ''Card is not registered 00456'' @ newline
                   @ ''2'' @ tab @ ''h2'' @ tab @ ''01/02/24 10:05:00'' @ tab @ ''Exit by card'' @ newline
                   @ ''3'' @ tab @ ''h3'' @ tab @ ''01/02/24 10:06:00'' @ tab @ ''Entered by card 999'' @ newline
                   @ ''4'' @ tab @ ''h4'' @ tab @ ''01/02/24 10:07:00'' @ tab @ ''Door opened 5''"

definition raw_not_registered :: string where
  "raw_not_registered = ''7'' @ tab @ ''h7'' @ tab @ ''01/02/24 09:59:00'' @ tab @ ''Card is not registered 00456''
                      @ newline @ raw_spec_lines"

definition args_default :: args where
  "args_default = \<lparr>roster_file = ''cards.xlsx'', records_to_fetch = 10000, skip_update = False,
                    skip_report = False, skip_clear_all_cards = False\<rparr>"



definition raw_empty_clock :: string where
  "raw_empty_clock = ''1'' @ tab @ ''h1'' @ tab @ '''' @ tab @ ''Entered by card 5''"

section \<open>Which records are active\<close>

lemma is_active_stringified:
  "is_active tday (c\<lparr>active := CStr (astype_str (active c))\<rparr>) = is_active tday c"
  by (simp add: is_active_def astype_str_def)

lemma lower_flag: "lower (astype_str (CBool b)) = ''true'' \<longleftrightarrow> b"
proof (cases b)
  case True
  have "lower (astype_str (CBool True)) = ''true''" by code_simp
  with True show ?thesis by simp
next
  case False
  have "lower (astype_str (CBool False)) \<noteq> ''true''" by code_simp
  with False show ?thesis by simp
qed

lemma load_views:
  assumes "load_and_filter_cards rd tday path = Inr (full, act)"
  shows "\<exists>loaded. rd path = Inr loaded
           \<and> full = map (\<lambda>c. c\<lparr>active := CStr (astype_str (active c))\<rparr>) loaded
           \<and> act = filter (is_active tday) full"
proof (cases "rd path")
  case (Inl err)
  with assms show ?thesis by (simp add: load_and_filter_cards_def)
next
  case (Inr loaded)
  with assms have "full = map (\<lambda>c. c\<lparr>active := CStr (astype_str (active c))\<rparr>) loaded"
    and "act = filter (is_active tday) full"
    by (auto simp: load_and_filter_cards_def Let_def)
  with Inr show ?thesis by blast
qed

lemma is_active_iff:
  "is_active tday r \<longleftrightarrow> lower (astype_str (active r)) = ''true'' \<and> card_rfid r \<noteq> None
                \<and> (\<exists>d. expiration r = Some d \<and> tday \<le> d)"
  by (cases "expiration r") (simp_all add: is_active_def)

text \<open>
  C4. A record of the loaded roster is in the active view exactly when the text form of its
  \<open>Active\<close> cell is \<open>true\<close> in any letter case (for a boolean cell: when the flag is
  true), its rfid is present and its expiration day is today or later. A record that
  expires today is in the view; a record that expired yesterday is not.
\<close>

theorem active_view_iff:
  assumes "rd path = Inr loaded" and "r \<in> set loaded"
    and "load_and_filter_cards rd tday path = Inr (full, act)"
  shows "(r\<lparr>active := CStr (astype_str (active r))\<rparr> \<in> set act
            \<longleftrightarrow> lower (astype_str (active r)) = ''true'' \<and> card_rfid r \<noteq> None
                \<and> (\<exists>d. expiration r = Some d \<and> tday \<le> d))
       \<and> (active r = CBool True \<and> card_rfid r \<noteq> None \<and> expiration r = Some tday
            \<longrightarrow> r\<lparr>active := CStr (astype_str (active r))\<rparr> \<in> set act)
       \<and> (expiration r = Some (tday - 1) \<longrightarrow> r\<lparr>active := CStr (astype_str (active r))\<rparr> \<notin> set act)
       \<and> (\<forall>b. active r = CBool b \<longrightarrow> (lower (astype_str (active r)) = ''true'' \<longleftrightarrow> b))"
proof -
  let ?v = "\<lambda>c. c\<lparr>active := CStr (astype_str (active c))\<rparr>"
  from load_views [OF assms(3)] assms(1)
  have full: "full = map ?v loaded" and act: "act = filter (is_active tday) full"
    by auto
  have "?v r \<in> set full" using assms(2) full by simp
  then have mem: "?v r \<in> set act \<longleftrightarrow> is_active tday r"
    by (simp add: act is_active_stringified)
  have a: "?v r \<in> set act \<longleftrightarrow> lower (astype_str (active r)) = ''true'' \<and> card_rfid r \<noteq> None
                \<and> (\<exists>d. expiration r = Some d \<and> tday \<le> d)"
    using mem is_active_iff by simp
  have b: "active r = CBool True \<and> card_rfid r \<noteq> None \<and> expiration r = Some tday \<longrightarrow> ?v r \<in> set act"
  proof
    assume h: "active r = CBool True \<and> card_rfid r \<noteq> None \<and> expiration r = Some tday"
    then have "lower (astype_str (active r)) = ''true''" using lower_flag [of True] by simp
    moreover from h have "card_rfid r \<noteq> None" and "\<exists>d. expiration r = Some d \<and> tday \<le> d" by simp_all
    ultimately show "?v r \<in> set act" using a by blast
  qed
  have c: "expiration r = Some (tday - 1) \<longrightarrow> ?v r \<notin> set act"
    by (simp only: a) simp
  have d: "\<forall>b. active r = CBool b \<longrightarrow> (lower (astype_str (active r)) = ''true'' \<longleftrightarrow> b)"
    using lower_flag by simp
  from a b c d show ?thesis by blast
qed

theorem active_view_iff_witness:
  "card_boundary\<lparr>active := CStr (astype_str (active card_boundary))\<rparr>
     \<in> set (filter (is_active 50) (map (\<lambda>c. c\<lparr>active := CStr (astype_str (active c))\<rparr>) roster4))
   \<and> card_expired\<lparr>active := CStr (astype_str (active card_expired))\<rparr>
     \<notin> set (filter (is_active 50) (map (\<lambda>c. c\<lparr>active := CStr (astype_str (active c))\<rparr>) roster4))"
proof -
  let ?full = "map (\<lambda>c. c\<lparr>active := CStr (astype_str (active c))\<rparr>) roster4"
  let ?act = "filter (is_active 50) ?full"
  have h1: "(\<lambda>p. Inr roster4 :: error + card list) ''cards.xlsx'' = Inr roster4" by simp
  have h3: "load_and_filter_cards (\<lambda>p. Inr roster4) 50 ''cards.xlsx'' = Inr (?full, ?act)"
    by (simp add: load_and_filter_cards_def Let_def)
  have m1: "card_boundary \<in> set roster4" and m2: "card_expired \<in> set roster4"
    by (simp_all add: roster4_def)
  have p1: "active card_boundary = CBool True \<and> card_rfid card_boundary \<noteq> None
            \<and> expiration card_boundary = Some 50"
    by (simp add: card_boundary_def)
  have p2: "expiration card_expired = Some (50 - 1)"
    by (simp add: card_expired_def)
  from active_view_iff [OF h1 m1 h3] p1 active_view_iff [OF h1 m2 h3] p2
  show ?thesis by blast
qed

section \<open>The active view is a filter of the full view\<close>

text \<open>
  C9, as the code has it. The active view holds rows of the full view only, and it is the
  full view filtered by a test that depends on the row and on today alone. Deriving the
  views writes to the loaded roster in one place: its \<open>Active\<close> column is replaced by its
  own text form before the filter, and the table so changed is the full view. The filter
  changes nothing, and no other column, row or the order of the rows is touched.
\<close>

theorem active_subset_full:
  assumes "load_and_filter_cards rd tday path = Inr (full, act)"
  shows "set act \<subseteq> set full
       \<and> act = filter (is_active tday) full
       \<and> (\<exists>loaded. rd path = Inr loaded
            \<and> map card_rfid full = map card_rfid loaded
            \<and> map rfid_float full = map rfid_float loaded
            \<and> map card_number full = map card_number loaded
            \<and> map username full = map username loaded
            \<and> map expiration full = map expiration loaded
            \<and> map active full = map (\<lambda>c. CStr (astype_str (active c))) loaded)"
proof -
  from load_views [OF assms] obtain loaded where l: "rd path = Inr loaded"
    and full: "full = map (\<lambda>c. c\<lparr>active := CStr (astype_str (active c))\<rparr>) loaded"
    and act: "act = filter (is_active tday) full"
    by blast
  have "set act \<subseteq> set full" by (simp add: act)
  moreover have "map card_rfid full = map card_rfid loaded" "map rfid_float full = map rfid_float loaded"
    "map card_number full = map card_number loaded"
    "map username full = map username loaded" "map expiration full = map expiration loaded"
    "map active full = map (\<lambda>c. CStr (astype_str (active c))) loaded"
    by (simp_all add: full)
  ultimately show ?thesis using l act by blast
qed

theorem active_subset_full_witness:
  "set (filter (is_active 50) (map (\<lambda>c. c\<lparr>active := CStr (astype_str (active c))\<rparr>) roster4))
   \<subseteq> set (map (\<lambda>c. c\<lparr>active := CStr (astype_str (active c))\<rparr>) roster4)"
proof -
  have "load_and_filter_cards (\<lambda>p. Inr roster4) 50 ''cards.xlsx''
        = Inr (map (\<lambda>c. c\<lparr>active := CStr (astype_str (active c))\<rparr>) roster4,
               filter (is_active 50) (map (\<lambda>c. c\<lparr>active := CStr (astype_str (active c))\<rparr>) roster4))"
    by (simp add: load_and_filter_cards_def Let_def)
  from active_subset_full [OF this] show ?thesis by blast
qed


text \<open>
  The roster \<open>roster4\<close> is read with a boolean \<open>Active\<close> cell in its first record. After the
  views are derived, the table that was read holds the text \<open>True\<close> in that cell: the
  loaded roster has been written to.
\<close>

theorem loaded_roster_is_overwritten:
  "read_excel (env_of raw_noise roster4) ''cards.xlsx'' = Inr roster4
   \<and> hd roster4 = card_boundary
   \<and> active card_boundary = CBool True
   \<and> load_and_filter_cards (read_excel (env_of raw_noise roster4)) 50 ''cards.xlsx''
     = Inr ([card_boundary\<lparr>active := CStr ''True''\<rparr>,
             card_expired\<lparr>active := CStr ''True''\<rparr>,
             \<lparr>card_rfid = Some 3, rfid_float = True, card_number = ''A3'', username = Some ''cy'',
                active = CStr ''False'', expiration = Some 60\<rparr>,
             \<lparr>card_rfid = None, rfid_float = True, card_number = ''A4'', username = Some ''di'',
                active = CStr ''TRUE'', expiration = Some 60\<rparr>],
            [card_boundary\<lparr>active := CStr ''True''\<rparr>])
   \<and> card_boundary\<lparr>active := CStr ''True''\<rparr> \<noteq> card_boundary"
  by code_simp

section \<open>Provisioning stops at the first failure\<close>






section \<open>Counting the days of entry\<close>

lemma set_drop_dups: "set (drop_dups seen xs) = set xs - set seen"
  by (induction xs arbitrary: seen) auto

lemma distinct_drop_dups: "distinct (drop_dups seen xs)"
  by (induction xs arbitrary: seen) (auto simp: set_drop_dups)

lemma set_drop_duplicates: "set (drop_duplicates xs) = set xs"
  by (simp add: drop_duplicates_def set_drop_dups)

lemma distinct_drop_duplicates: "distinct (drop_duplicates xs)"
  by (simp add: drop_duplicates_def distinct_drop_dups)

lemma merge_left_row:
  "set (case filter (\<lambda>c. card_rfid c = Some rfid) cards of
          [] \<Rightarrow> [(rfid, x, None)]
        | ms \<Rightarrow> map (\<lambda>c. (rfid, x, Some c)) ms)
   = (if \<exists>k\<in>set cards. card_rfid k = Some rfid
      then {(rfid, x, Some k) | k. k \<in> set cards \<and> card_rfid k = Some rfid}
      else {(rfid, x, None)})"
proof (cases "filter (\<lambda>c. card_rfid c = Some rfid) cards")
  case Nil
  then have "\<not> (\<exists>k\<in>set cards. card_rfid k = Some rfid)"
    by (simp add: filter_empty_conv)
  with Nil show ?thesis by simp
next
  case (Cons m ms)
  then have "m \<in> set (filter (\<lambda>c. card_rfid c = Some rfid) cards)" by simp
  then have ex: "\<exists>k\<in>set cards. card_rfid k = Some rfid" by auto
  have "set (map (\<lambda>c. (rfid, x, Some c)) (filter (\<lambda>c. card_rfid c = Some rfid) cards))
        = {(rfid, x, Some k) | k. k \<in> set cards \<and> card_rfid k = Some rfid}"
    by auto
  with Cons ex show ?thesis by simp
qed

lemma merge_left_Cons:
  "merge_left ((rfid, x) # df) cards =
     (case filter (\<lambda>c. card_rfid c = Some rfid) cards of
          [] \<Rightarrow> [(rfid, x, None)]
        | ms \<Rightarrow> map (\<lambda>c. (rfid, x, Some c)) ms) @ merge_left df cards"
  by (simp add: merge_left_def)

lemma merge_left_Nil: "merge_left [] cards = []"
  by (simp add: merge_left_def)

lemma in_merge_left:
  "(r, x, c) \<in> set (merge_left df cards) \<longleftrightarrow>
     (r, x) \<in> set df \<and>
     (if \<exists>k\<in>set cards. card_rfid k = Some r
      then \<exists>k\<in>set cards. card_rfid k = Some r \<and> c = Some k
      else c = None)"
proof (induction df)
  case Nil
  show ?case by (simp add: merge_left_Nil)
next
  case (Cons p df)
  obtain rfid y where p: "p = (rfid, y)" by (cases p)
  have "(r, x, c) \<in> set (merge_left (p # df) cards) \<longleftrightarrow>
        (r, x, c) \<in> (if \<exists>k\<in>set cards. card_rfid k = Some rfid
      then {(rfid, y, Some k) | k. k \<in> set cards \<and> card_rfid k = Some rfid}
      else {(rfid, y, None)}) \<or> (r, x, c) \<in> set (merge_left df cards)"
    unfolding p merge_left_Cons set_append merge_left_row by simp
  also have "\<dots> \<longleftrightarrow> (r, x) \<in> set (p # df) \<and>
     (if \<exists>k\<in>set cards. card_rfid k = Some r
      then \<exists>k\<in>set cards. card_rfid k = Some r \<and> c = Some k
      else c = None)"
    unfolding Cons.IH p by (auto split: if_splits)
  finally show ?case .
qed

lemma set_map_filter: "set (List.map_filter f xs) = {y. \<exists>x\<in>set xs. f x = Some y}"
  by (induction xs) (auto split: option.splits)

lemma in_joined:
  "(r, x, c) \<in> set (filter has_username (merge_left df cards)) \<longleftrightarrow>
     (r, x) \<in> set df \<and> (\<exists>k\<in>set cards. card_rfid k = Some r \<and> username k \<noteq> None \<and> c = Some k)"
  by (auto simp: in_merge_left has_username_def split: if_splits option.splits)

lemma set_dates_of: "set (dates_of r df) = {d. \<exists>c. (r, Some d, c) \<in> set df}"
proof -
  have "\<And>d. (\<exists>x\<in>set df. (case x of (ra, d', c) \<Rightarrow> if ra = r then d' else None) = Some d)
          \<longleftrightarrow> (\<exists>c. (r, Some d, c) \<in> set df)"
  proof
    fix d assume "\<exists>x\<in>set df. (case x of (ra, d', c) \<Rightarrow> if ra = r then d' else None) = Some d"
    then obtain x where x: "x \<in> set df" "(case x of (ra, d', c) \<Rightarrow> if ra = r then d' else None) = Some d"
      by blast
    obtain ra d' c where "x = (ra, d', c)" by (cases x)
    with x show "\<exists>c. (r, Some d, c) \<in> set df" by (auto split: if_splits)
  next
    fix d assume "\<exists>c. (r, Some d, c) \<in> set df"
    then obtain c where "(r, Some d, c) \<in> set df" ..
    then show "\<exists>x\<in>set df. (case x of (ra, d', c) \<Rightarrow> if ra = r then d' else None) = Some d"
      by (intro bexI [of _ "(r, Some d, c)"]) simp_all
  qed
  then show ?thesis by (simp add: dates_of_def set_map_filter)
qed

lemma in_nunique:
  "(r, n) \<in> set (nunique df) \<longleftrightarrow> r \<in> fst ` set df \<and> n = card {d. \<exists>c. (r, Some d, c) \<in> set df}"
  by (auto simp: nunique_def set_dates_of [symmetric] length_remdups_card_conv)

lemma set_sort_values: "set (sort_values df) = set df"
  by (simp add: sort_values_def)

lemma in_report_rows:
  "(r, n, c) \<in> set (report_rows events cards) \<longleftrightarrow>
     (\<exists>x. (r, x) \<in> set events)
     \<and> (\<exists>k\<in>set cards. card_rfid k = Some r \<and> username k \<noteq> None)
     \<and> n = card {d. (r, Some d) \<in> set events}
     \<and> (\<exists>k\<in>set cards. card_rfid k = Some r \<and> c = Some k)"
proof -
  let ?J = "filter has_username (merge_left (drop_duplicates events) cards)"
  have key: "r \<in> fst ` set ?J \<longleftrightarrow>
        (\<exists>x. (r, x) \<in> set events) \<and> (\<exists>k\<in>set cards. card_rfid k = Some r \<and> username k \<noteq> None)"
  proof
    assume "r \<in> fst ` set ?J"
    then obtain x c' where "(r, x, c') \<in> set ?J" by force
    then show "(\<exists>x. (r, x) \<in> set events) \<and> (\<exists>k\<in>set cards. card_rfid k = Some r \<and> username k \<noteq> None)"
      unfolding in_joined set_drop_duplicates by blast
  next
    assume "(\<exists>x. (r, x) \<in> set events) \<and> (\<exists>k\<in>set cards. card_rfid k = Some r \<and> username k \<noteq> None)"
    then obtain x k where "(r, x) \<in> set events" "k \<in> set cards" "card_rfid k = Some r" "username k \<noteq> None"
      by blast
    then have "(r, x, Some k) \<in> set ?J"
      unfolding in_joined set_drop_duplicates by blast
    then show "r \<in> fst ` set ?J" by force
  qed
  have dates: "(\<exists>k\<in>set cards. card_rfid k = Some r \<and> username k \<noteq> None) \<Longrightarrow>
        {d. \<exists>c. (r, Some d, c) \<in> set ?J} = {d. (r, Some d) \<in> set events}"
    unfolding in_joined set_drop_duplicates by blast
  have "(r, n, c) \<in> set (report_rows events cards) \<longleftrightarrow>
        (r, n) \<in> set (nunique ?J) \<and>
        (if \<exists>k\<in>set cards. card_rfid k = Some r
         then \<exists>k\<in>set cards. card_rfid k = Some r \<and> c = Some k else c = None)"
    by (simp add: report_rows_def Let_def set_sort_values in_merge_left)
  also have "\<dots> \<longleftrightarrow> (\<exists>x. (r, x) \<in> set events)
     \<and> (\<exists>k\<in>set cards. card_rfid k = Some r \<and> username k \<noteq> None)
     \<and> n = card {d. (r, Some d) \<in> set events}
     \<and> (\<exists>k\<in>set cards. card_rfid k = Some r \<and> c = Some k)"
  proof (cases "\<exists>k\<in>set cards. card_rfid k = Some r \<and> username k \<noteq> None")
    case True
    then have ex: "\<exists>k\<in>set cards. card_rfid k = Some r" by blast
    show ?thesis
      unfolding in_nunique key dates [OF True] using True ex by simp
  next
    case False
    then show ?thesis unfolding in_nunique key by blast
  qed
  finally show ?thesis .
qed

text \<open>
  C6. \<open>drop_duplicates\<close> leaves one copy of each \<open>(rfid, date)\<close> row. For every row of the
  report, \<open>UniqueEntryDays\<close> is the number of distinct calendar dates among the events of
  its rfid, and two event lists with the same rows, however often repeated, give the same
  report rows. An rfid seen on three dates, two of them twice, gets the count 3.
\<close>

theorem unique_entry_days_counts_dates:
  "distinct (drop_duplicates events) \<and> set (drop_duplicates events) = set events
   \<and> ((r, n, c) \<in> set (report_rows events cards) \<longrightarrow> n = card {d. (r, Some d) \<in> set events})
   \<and> (set events' = set events \<longrightarrow> set (report_rows events' cards) = set (report_rows events cards))"
proof -
  have "set events' = set events \<Longrightarrow> set (report_rows events' cards) = set (report_rows events cards)"
  proof -
    assume eq: "set events' = set events"
    have "\<And>row. row \<in> set (report_rows events' cards) \<longleftrightarrow> row \<in> set (report_rows events cards)"
    proof -
      fix row :: "int \<times> nat \<times> card option"
      obtain r' n' c' where row: "row = (r', n', c')" by (cases row)
      show "row \<in> set (report_rows events' cards) \<longleftrightarrow> row \<in> set (report_rows events cards)"
        unfolding row in_report_rows eq ..
    qed
    then show ?thesis by blast
  qed
  then show ?thesis
    by (simp add: distinct_drop_duplicates set_drop_duplicates in_report_rows)
qed

theorem unique_entry_days_counts_dates_witness:
  "report_rows events5 [card123] = [(123, 3, Some card123)]
   \<and> card {d. (123, Some d) \<in> set events5} = 3"
proof -
  have rows: "report_rows events5 [card123] = [(123, 3, Some card123)]"
    by code_simp
  then have "(123, 3, Some card123) \<in> set (report_rows events5 [card123])"
    by simp
  with unique_entry_days_counts_dates [of events5 123 3 "Some card123" "[card123]" events5]
  have "3 = card {d. (123, Some d) \<in> set events5}" by blast
  with rows show ?thesis by simp
qed

section \<open>The order of the report\<close>

lemma fst_merge_left_block:
  "map fst (case filter (\<lambda>c. card_rfid c = Some rfid) cards of
          [] \<Rightarrow> [(rfid, x, None)]
        | ms \<Rightarrow> map (\<lambda>c. (rfid, x, Some c)) ms)
   = replicate (max 1 (length (filter (\<lambda>c. card_rfid c = Some rfid) cards))) rfid"
  by (cases "filter (\<lambda>c. card_rfid c = Some rfid) cards") (simp_all add: map_replicate_const comp_def)

lemma set_fst_merge_left: "set (map fst (merge_left df cards)) = set (map fst df)"
proof -
  have "\<And>r. r \<in> fst ` set (merge_left df cards) \<longleftrightarrow> r \<in> fst ` set df"
  proof
    fix r assume "r \<in> fst ` set (merge_left df cards)"
    then obtain x c where "(r, x, c) \<in> set (merge_left df cards)" by force
    then have "(r, x) \<in> set df" by (simp add: in_merge_left)
    then show "r \<in> fst ` set df" by force
  next
    fix r assume "r \<in> fst ` set df"
    then obtain x where x: "(r, x) \<in> set df" by force
    show "r \<in> fst ` set (merge_left df cards)"
    proof (cases "\<exists>k\<in>set cards. card_rfid k = Some r")
      case True
      then obtain k where "k \<in> set cards" "card_rfid k = Some r" by blast
      with x True have "(r, x, Some k) \<in> set (merge_left df cards)"
        by (auto simp: in_merge_left)
      then show ?thesis by force
    next
      case False
      with x have "(r, x, None) \<in> set (merge_left df cards)"
        by (simp add: in_merge_left)
      then show ?thesis by force
    qed
  qed
  then show ?thesis by auto
qed

lemma sorted_fst_merge_left:
  "sorted (map fst df) \<Longrightarrow> sorted (map fst (merge_left df cards))"
proof (induction df)
  case Nil
  then show ?case by (simp add: merge_left_Nil)
next
  case (Cons p df)
  obtain rfid x where p: "p = (rfid, x)" by (cases p)
  from Cons.prems have tl: "sorted (map fst df)" and le: "\<forall>r\<in>set (map fst df). rfid \<le> r"
    by (simp_all add: p)
  have "sorted (map fst (merge_left df cards))" using tl by (rule Cons.IH)
  moreover have "\<forall>r\<in>set (map fst (merge_left df cards)). rfid \<le> r"
    using le unfolding set_fst_merge_left .
  ultimately show ?case
    unfolding p merge_left_Cons map_append fst_merge_left_block
    by (auto simp: sorted_append)
qed

lemma sorted_fst_nunique: "sorted (map fst (nunique df)) \<and> distinct (map fst (nunique df))"
  by (simp add: nunique_def comp_def)

text \<open>
  C3, as the code has it. The rows of the report are in descending order of
  \<open>UniqueEntryDays\<close>. They are a rearrangement of the aggregate joined back onto the roster,
  and that frame reaches the sort in ascending order of rfid, because \<open>groupby\<close> orders
  its groups by key: the roster order plays no part among rows with equal counts.
\<close>

theorem report_sorted_descending:
  "sorted (rev (map (\<lambda>row. fst (snd row)) (report_rows events cards)))
   \<and> mset (report_rows events cards)
       = mset (merge_left (nunique (filter has_username (merge_left (drop_duplicates events) cards))) cards)
   \<and> sorted (map fst (merge_left (nunique (filter has_username (merge_left (drop_duplicates events) cards))) cards))"
proof -
  let ?R = "merge_left (nunique (filter has_username (merge_left (drop_duplicates events) cards))) cards"
  have r: "report_rows events cards = sort_values ?R"
    by (simp add: report_rows_def Let_def)
  have "rev (map (\<lambda>row. fst (snd row)) (sort_values ?R))
        = map (\<lambda>row. fst (snd row)) (sort_key (\<lambda>row. fst (snd row)) (rev ?R))"
    by (simp add: sort_values_def rev_map)
  then have a: "sorted (rev (map (\<lambda>row. fst (snd row)) (sort_values ?R)))"
    by (simp only: sorted_sort_key)
  have b: "mset (sort_values ?R) = mset ?R"
    by (simp add: sort_values_def)
  have c: "sorted (map fst ?R)"
    using sorted_fst_nunique by (intro sorted_fst_merge_left) blast
  from a b c show ?thesis by (simp only: r)
qed

text \<open>
  The roster lists card 5 before card 3; both entered on one day. The report lists card 3
  first.
\<close>

theorem report_ties_not_in_roster_order:
  "generate_access_report (env_of raw_two_cards [card5, card3]) \<lparr>issued = [], files = []\<rparr> 10
     [card5, card3] ''reports/''
   = (Inr None,
      \<lparr>issued = [(''/cgi/event_get'', Some ''-1,0,-10,0,0,1,1,0,23,59,31,12,99,1,/en'')],
       files = [(''reports/access_report_20240201_100000.xlsx'',
                 Report [(3, 1, Some card3), (5, 1, Some card5)])]\<rparr>)"
  by code_simp

section \<open>What the report builder returns and writes\<close>

lemma generate_access_report_unfold:
  assumes "device e (issued w) (event_get n) = Inr raw_data"
  shows "generate_access_report e w n cards out =
     (if tokenize raw_data = [] then (Inr None, w\<lparr>issued := issued w @ [event_get n]\<rparr>)
      else (case normalize (classify (tokenize raw_data)) of
              Inl err \<Rightarrow> (Inl err, w\<lparr>issued := issued w @ [event_get n]\<rparr>)
            | Inr events \<Rightarrow>
                if writable e out \<and> writable e (path_join out (''access_report_'' @ now e @ ''.xlsx''))
                then (Inr None, w\<lparr>issued := issued w @ [event_get n],
                        files := files w @ [(path_join out (''access_report_'' @ now e @ ''.xlsx''),
                                             Report (report_rows events cards))]\<rparr>)
                else (Inl OSError, w\<lparr>issued := issued w @ [event_get n]\<rparr>)))"
  using assms
  by (simp add: generate_access_report_def make_request_def write_file_def Let_def split: sum.splits)

lemma generate_access_report_request_failed:
  assumes "device e (issued w) (event_get n) = Inl err"
  shows "generate_access_report e w n cards out = (Inl err, w\<lparr>issued := issued w @ [event_get n]\<rparr>)"
  using assms
  by (simp add: generate_access_report_def make_request_def)

lemma generate_access_report_returns_none:
  "fst (generate_access_report e w n cards out) \<noteq> Inr (Some p)"
proof (cases "device e (issued w) (event_get n)")
  case (Inl err)
  then show ?thesis by (simp add: generate_access_report_request_failed)
next
  case (Inr raw_data)
  then show ?thesis
    by (simp add: generate_access_report_unfold split: sum.splits)
qed




text \<open>
  C2, as the code has it. \<open>generate_access_report\<close> returns \<open>None\<close> on both of its exits and
  never a path. With no line of four fields it writes no file. Otherwise, once the
  pipeline has gone through and the directory and the file can be written, the report is
  written to \<open>output_dir/access_report_<timestamp>.xlsx\<close>.
\<close>

theorem generate_access_report_contract:
  "fst (generate_access_report e w n cards out) \<noteq> Inr (Some p)
   \<and> (device e (issued w) (event_get n) = Inr raw_data \<and> tokenize raw_data = []
        \<longrightarrow> generate_access_report e w n cards out
              = (Inr None, w\<lparr>issued := issued w @ [event_get n]\<rparr>))
   \<and> (device e (issued w) (event_get n) = Inr raw_data \<and> tokenize raw_data \<noteq> []
        \<and> normalize (classify (tokenize raw_data)) = Inr events
        \<and> writable e out \<and> writable e (path_join out (''access_report_'' @ now e @ ''.xlsx''))
        \<longrightarrow> generate_access_report e w n cards out
              = (Inr None, w\<lparr>issued := issued w @ [event_get n],
                   files := files w @ [(path_join out (''access_report_'' @ now e @ ''.xlsx''),
                                        Report (report_rows events cards))]\<rparr>))"
  by (simp add: generate_access_report_returns_none generate_access_report_unfold)

theorem generate_access_report_contract_witness:
  "generate_access_report (env_of raw_noise [card123]) \<lparr>issued = [], files = []\<rparr> 10 [card123] ''reports''
     = (Inr None, \<lparr>issued = [event_get 10], files = []\<rparr>)
   \<and> generate_access_report (env_of raw_spec_lines [card123]) \<lparr>issued = [], files = []\<rparr> 10 [card123] ''reports''
     = (Inr None, \<lparr>issued = [event_get 10],
          files = [(''reports/access_report_20240201_100000.xlsx'', Report [(123, 1, Some card123)])]\<rparr>)"
proof -
  let ?w = "\<lparr>issued = [], files = []\<rparr>"
  have d1: "device (env_of raw_noise [card123]) (issued ?w) (event_get 10) = Inr raw_noise"
    and d2: "device (env_of raw_spec_lines [card123]) (issued ?w) (event_get 10) = Inr raw_spec_lines"
    by (simp_all add: env_of_def)
  have t1: "tokenize raw_noise = []" by code_simp
  have t2: "tokenize raw_spec_lines \<noteq> []" by code_simp
  have n2: "normalize (classify (tokenize raw_spec_lines)) = Inr [(123, Some (2024, 2, 1))]" by code_simp
  have wr: "writable (env_of raw_spec_lines [card123]) ''reports''"
    "writable (env_of raw_spec_lines [card123])
       (path_join ''reports'' (''access_report_'' @ now (env_of raw_spec_lines [card123]) @ ''.xlsx''))"
    by (simp_all add: env_of_def)
  have p: "path_join ''reports'' (''access_report_'' @ now (env_of raw_spec_lines [card123]) @ ''.xlsx'')
           = ''reports/access_report_20240201_100000.xlsx''"
    by (simp add: env_of_def path_join_def)
  have r: "report_rows [(123, Some (2024, 2, 1))] [card123] = [(123, 1, Some card123)]" by code_simp
  from generate_access_report_contract [of "env_of raw_noise [card123]" ?w 10 "[card123]" "''reports''" _ raw_noise] d1 t1
  have a: "generate_access_report (env_of raw_noise [card123]) ?w 10 [card123] ''reports''
           = (Inr None, ?w\<lparr>issued := issued ?w @ [event_get 10]\<rparr>)"
    by blast
  from generate_access_report_contract [of "env_of raw_spec_lines [card123]" ?w 10 "[card123]" "''reports''" _
       raw_spec_lines "[(123, Some (2024, 2, 1))]"] d2 t2 n2 wr
  have b: "generate_access_report (env_of raw_spec_lines [card123]) ?w 10 [card123] ''reports''
           = (Inr None, ?w\<lparr>issued := issued ?w @ [event_get 10],
                files := files ?w @ [(path_join ''reports'' (''access_report_'' @ now (env_of raw_spec_lines [card123]) @ ''.xlsx''),
                                      Report (report_rows [(123, Some (2024, 2, 1))] [card123]))]\<rparr>)"
    by blast
  from a b [unfolded p r] show ?thesis by simp
qed

text \<open>
  A fetch with one entry line: the report file is written, and the value returned is
  \<open>None\<close>, not the path of the file.
\<close>

theorem generate_access_report_returns_no_path:
  "generate_access_report (env_of raw_spec_lines [card123]) \<lparr>issued = [], files = []\<rparr> 25 [card123] ''out/''
   = (Inr None,
      \<lparr>issued = [(''/cgi/event_get'', Some ''-1,0,-25,0,0,1,1,0,23,59,31,12,99,1,/en'')],
       files = [(''out/access_report_20240201_100000.xlsx'', Report [(123, 1, Some card123)])]\<rparr>)"
  by code_simp

section \<open>Malformed timestamps and empty reports\<close>

lemma classify_tokens: "classify data \<noteq> [] \<Longrightarrow> data \<noteq> []"
  by (auto simp: classify_def)








text \<open>
  The same with an empty datetime field, and a clock of 23:59:60 on the last day of a year,
  which the format accepts and which falls on the first day of the next year.
\<close>

theorem empty_datetime_does_not_abort:
  "classify (tokenize raw_empty_clock) = [('''', 5)]
   \<and> strptime '''' = Inl ValueError
   \<and> generate_access_report (env_of raw_empty_clock [card5, card3]) \<lparr>issued = [], files = []\<rparr> 10
        [card5, card3] ''reports/''
      = (Inr None,
         \<lparr>issued = [(''/cgi/event_get'', Some ''-1,0,-10,0,0,1,1,0,23,59,31,12,99,1,/en'')],
          files = [(''reports/access_report_20240201_100000.xlsx'', Report [(5, 0, Some card5)])]\<rparr>)
   \<and> strptime ''31/12/24 23:59:60'' = Inr (2025, 1, 1)
   \<and> strptime ''01/02/24 10:00:61'' = Inr (2024, 2, 1)
   \<and> strptime ''01/02/24 10:00:62'' = Inl ValueError"
  by code_simp

lemma report_rows_nothing_joined:
  assumes "\<forall>(r, d)\<in>set events. \<not> (\<exists>k\<in>set cards. card_rfid k = Some r \<and> username k \<noteq> None)"
  shows "report_rows events cards = []"
proof (cases "report_rows events cards")
  case Nil
  then show ?thesis .
next
  case (Cons row rest)
  obtain r n c where "row = (r, n, c)" by (cases row)
  with Cons have "(r, n, c) \<in> set (report_rows events cards)" by simp
  then obtain x where "(r, x) \<in> set events"
    and "\<exists>k\<in>set cards. card_rfid k = Some r \<and> username k \<noteq> None"
    unfolding in_report_rows by blast
  with assms show ?thesis by blast
qed

text \<open>
  C10. When the fetched text has a line of four fields, the rows that survive
  classification and extraction all convert, and none of them has a roster record with a
  username, \<open>generate_access_report\<close> does not stop early: it writes the report file with
  no data rows. Together with C2, the only exit without a file is the one for no line of
  four fields.
\<close>

theorem empty_report_is_still_written:
  assumes "device e (issued w) (event_get n) = Inr raw_data"
    and "tokenize raw_data \<noteq> []"
    and "normalize (classify (tokenize raw_data)) = Inr events"
    and "\<forall>(r, d)\<in>set events. \<not> (\<exists>k\<in>set cards. card_rfid k = Some r \<and> username k \<noteq> None)"
    and "writable e out" and "writable e (path_join out (''access_report_'' @ now e @ ''.xlsx''))"
  shows "generate_access_report e w n cards out
         = (Inr None, w\<lparr>issued := issued w @ [event_get n],
              files := files w @ [(path_join out (''access_report_'' @ now e @ ''.xlsx''), Report [])]\<rparr>)"
  using assms(2,3,5,6) report_rows_nothing_joined [OF assms(4)]
  by (simp add: generate_access_report_unfold [OF assms(1)])

theorem empty_report_is_still_written_witness:
  "length (tokenize raw_all_dropped) = 4
   \<and> generate_access_report (env_of raw_all_dropped [card5, card3]) \<lparr>issued = [], files = []\<rparr> 10
        [card5, card3] ''reports/''
      = (Inr None, \<lparr>issued = [event_get 10],
           files = [(''reports/access_report_20240201_100000.xlsx'', Report [])]\<rparr>)"
proof -
  let ?w = "\<lparr>issued = [], files = []\<rparr>"
  let ?e = "env_of raw_all_dropped [card5, card3]"
  have d: "device ?e (issued ?w) (event_get 10) = Inr raw_all_dropped"
    by (simp add: env_of_def)
  have l: "length (tokenize raw_all_dropped) = 4" by code_simp
  then have t: "tokenize raw_all_dropped \<noteq> []" by auto
  have nm: "normalize (classify (tokenize raw_all_dropped)) = Inr [(999, Some (2024, 2, 1))]"
    by code_simp
  have nj: "\<forall>(r, d)\<in>set [(999 :: int, Some (2024 :: nat, 2 :: nat, 1 :: nat))].
              \<not> (\<exists>k\<in>set [card5, card3]. card_rfid k = Some r \<and> username k \<noteq> None)"
    by (simp add: card5_def card3_def)
  have wr: "writable ?e ''reports/''"
    "writable ?e (path_join ''reports/'' (''access_report_'' @ now ?e @ ''.xlsx''))"
    by (simp_all add: env_of_def)
  have p: "path_join ''reports/'' (''access_report_'' @ now ?e @ ''.xlsx'')
           = ''reports/access_report_20240201_100000.xlsx''"
    by (simp add: env_of_def path_join_def)
  from empty_report_is_still_written [OF d t nm nj wr]
  have "generate_access_report ?e ?w 10 [card5, card3] ''reports/''
         = (Inr None, ?w\<lparr>issued := issued ?w @ [event_get 10],
              files := files ?w @ [(path_join ''reports/'' (''access_report_'' @ now ?e @ ''.xlsx''), Report [])]\<rparr>)" .
  from this [unfolded p] l show ?thesis by simp
qed

section \<open>Which lines become events\<close>

lemma classify_append: "classify (pre @ post) = classify pre @ classify post"
  by (simp add: classify_def List.map_filter_def)

lemma classify_not_registered:
  "str_contains ''Card is not registered'' (flds ! 3) \<Longrightarrow> classify [flds] = []"
  by (simp add: classify_def)

text \<open>
  C5. Of the two lines \<open>1\\th1\\t01/02/24 10:00:00\\tEntered by card 00123\<close> and \<open>bad\\tline\<close>
  only the first yields an event, with rfid 123 and the date 1 February 2024. A line whose
  description contains \<open>Card is not registered\<close> yields no event, whatever digits follow:
  the events of a fetch are the same with and without such a line.
\<close>

theorem not_registered_yields_no_event:
  "normalize (classify (tokenize raw_spec_lines)) = Inr [(123, Some (2024, 2, 1))]
   \<and> (length flds = 4 \<and> str_contains ''Card is not registered'' (flds ! 3)
        \<longrightarrow> classify [flds] = []
          \<and> normalize (classify (pre @ [flds] @ post)) = normalize (classify (pre @ post)))"
proof -
  have "normalize (classify (tokenize raw_spec_lines)) = Inr [(123, Some (2024, 2, 1))]"
    by code_simp
  moreover have "str_contains ''Card is not registered'' (flds ! 3)
    \<Longrightarrow> classify (pre @ [flds] @ post) = classify (pre @ post)"
    by (simp only: classify_append classify_not_registered) simp
  ultimately show ?thesis
    by (simp add: classify_not_registered)
qed

theorem not_registered_yields_no_event_witness:
  "tokenize raw_not_registered
     = [[''7'', ''h7'', ''01/02/24 09:59:00'', ''Card is not registered 00456'']] @ tokenize raw_spec_lines
   \<and> classify [[''7'', ''h7'', ''01/02/24 09:59:00'', ''Card is not registered 00456'']] = []
   \<and> normalize (classify (tokenize raw_not_registered)) = Inr [(123, Some (2024, 2, 1))]"
proof -
  let ?f = "[''7'', ''h7'', ''01/02/24 09:59:00'', ''Card is not registered 00456'']"
  have t: "tokenize raw_not_registered = [?f] @ tokenize raw_spec_lines"
    by code_simp
  have h: "length ?f = 4 \<and> str_contains ''Card is not registered'' (?f ! 3)"
    by code_simp
  from not_registered_yields_no_event [of ?f "[]" "tokenize raw_spec_lines"] h
  have "normalize (classify (tokenize raw_spec_lines)) = Inr [(123, Some (2024, 2, 1))]"
    and "classify [?f] = []"
    and "normalize (classify ([] @ [?f] @ tokenize raw_spec_lines)) = normalize (classify ([] @ tokenize raw_spec_lines))"
    by blast+
  with t show ?thesis by simp
qed

section \<open>Clearing the device\<close>

text \<open>
  C1. The default run on a reachable device with a readable roster: the backup is fetched and
  written, then the call of \<open>clear_all_cards\<close> raises, and the process ends with status 1.
  No wipe command and no \<open>/cgi/card_edit\<close> request reaches the device, and no report is
  built.
\<close>

theorem default_run_stops_at_clear_all_cards:
  "main (env_of raw_spec_lines roster4) args_default \<lparr>issued = [], files = []\<rparr>
   = (SysExit 1,
      \<lparr>issued = [(''/cgi/card_get_list'', None)],
       files = [(''backups/turnstile_backup_20240201_100000.bin'', Backup raw_spec_lines)]\<rparr>)"
  by code_simp


end
